theory Spec2Isabelle
  imports Main
begin

section \<open>JavaScript strings and values\<close>



text \<open>
  \<open>String.prototype.toLowerCase\<close> on the Latin letters \<open>A\<close> to \<open>Z\<close>. No other code unit
  is mapped to one of \<open>.\<close>, \<open>p\<close>, \<open>d\<close>, \<open>f\<close>, so the test for the suffix \<open>.pdf\<close> below
  reads the same letters as the source does.
\<close>

definition lower_char :: "char \<Rightarrow> char" where
  "lower_char c =
     (case map_of (zip ''ABCDEFGHIJKLMNOPQRSTUVWXYZ'' ''abcdefghijklmnopqrstuvwxyz'') c of
        None \<Rightarrow> c
      | Some l \<Rightarrow> l)"

definition toLowerCase :: "string \<Rightarrow> string" where
  "toLowerCase s = map lower_char s"

text \<open>\<open>s.endsWith(t)\<close>, and \<open>s.includes(t)\<close> as \<open>includes_str s t\<close>.\<close>

definition endsWith :: "string \<Rightarrow> string \<Rightarrow> bool" where
  "endsWith s t = (length t \<le> length s \<and> drop (length s - length t) s = t)"

fun includes_str :: "string \<Rightarrow> string \<Rightarrow> bool" where
  "includes_str [] t = (t = [])"
| "includes_str (c # cs) t = (take (length t) (c # cs) = t \<or> includes_str cs t)"

text \<open>
  The white space that \<open>String.prototype.trim\<close> removes, among the code units below 256:
  tab, line feed, vertical tab, form feed, carriage return, space and no-break space.
\<close>

definition is_space :: "char \<Rightarrow> bool" where
  "is_space c = (of_char c \<in> {9, 10, 11, 12, 13, 32, 160 :: nat})"

definition trim :: "string \<Rightarrow> string" where
  "trim s = rev (dropWhile is_space (rev (dropWhile is_space s)))"

text \<open>The decimal digits of a number, as a template literal prints it.\<close>

fun string_of_nat :: "nat \<Rightarrow> string" where
  "string_of_nat n =
     (if n < 10 then [''0123456789'' ! n]
      else string_of_nat (n div 10) @ [''0123456789'' ! (n mod 10)])"

text \<open>
  \<open>x || d\<close> for an optional string field \<open>x\<close>: a missing field and the empty string are
  both falsy.
\<close>

definition or_else :: "string option \<Rightarrow> string \<Rightarrow> string" where
  "or_else x d = (case x of None \<Rightarrow> d | Some v \<Rightarrow> if v = [] then d else v)"

text \<open>
  The value of an awaited promise: it is rejected with an \<open>Error\<close> whose \<open>message\<close> is
  kept, or resolved with a value. A rejected \<open>fetch\<close> is a transport failure; a rejected
  \<open>response.json()\<close> is a parse failure. Both reach the same \<open>catch\<close> block.
\<close>

datatype 'a awaited = Rejected string | Resolved 'a


section \<open>Content renderer: the \<open>code\<close> component\<close>






section \<open>Typewriter hook\<close>

text \<open>
  One instance of \<open>useTypewriter\<close>. \<open>displayedText\<close> and \<open>isTyping\<close> are its two state
  cells. \<open>deps\<close> is the dependency array \<open>[text, speed, trigger]\<close> of the effect that ran
  last (\<open>None\<close> before the first one). \<open>timers\<close> are the intervals of this instance that
  the browser still fires, each with its handle and the \<open>text\<close> and \<open>index\<close> its callback
  closes over; \<open>clearInterval\<close> removes an entry and a removed interval never fires.
  \<open>cleanup\<close> is the handle that the pending cleanup function clears, and \<open>fresh\<close> is the
  next handle \<open>setInterval\<close> returns.
\<close>

record typewriter =
  displayedText :: string
  isTyping :: bool
  deps :: "(string \<times> nat \<times> int) option"
  timers :: "(nat \<times> string \<times> nat) list"
  cleanup :: "nat option"
  fresh :: nat

definition initial_typewriter :: typewriter where
  "initial_typewriter =
     \<lparr>displayedText = [], isTyping = True, deps = None, timers = [], cleanup = None, fresh = 0\<rparr>"

definition clearInterval :: "nat \<Rightarrow> typewriter \<Rightarrow> typewriter" where
  "clearInterval h w = w\<lparr>timers := filter (\<lambda>t. fst t \<noteq> h) (timers w)\<rparr>"

text \<open>The cleanup function of the effect: \<open>() => clearInterval(interval)\<close>.\<close>

definition run_cleanup :: "typewriter \<Rightarrow> typewriter" where
  "run_cleanup w = (case cleanup w of None \<Rightarrow> w | Some h \<Rightarrow> clearInterval h w)"

text \<open>
  The effect, run when a dependency changed: the previous cleanup first, then the body,
  which empties the text, sets \<open>isTyping\<close> and starts an interval with \<open>index = 0\<close>.
\<close>

definition run_effect :: "string \<Rightarrow> nat \<Rightarrow> int \<Rightarrow> typewriter \<Rightarrow> typewriter" where
  "run_effect text speed trigger w =
     (let w1 = run_cleanup w; h = fresh w1
      in w1\<lparr>displayedText := [], isTyping := True, deps := Some (text, speed, trigger),
             timers := timers w1 @ [(h, text, 0)], cleanup := Some h, fresh := Suc h\<rparr>)"

text \<open>A render of the hook: the effect runs only if \<open>[text, speed, trigger]\<close> changed.\<close>

definition useTypewriter :: "string \<Rightarrow> nat \<Rightarrow> int \<Rightarrow> typewriter \<Rightarrow> typewriter" where
  "useTypewriter text speed trigger w =
     (if deps w = Some (text, speed, trigger) then w else run_effect text speed trigger w)"

text \<open>
  The browser fires the interval with handle \<open>h\<close>: nothing happens if it was cleared,
  otherwise its callback runs with the \<open>text\<close> and \<open>index\<close> it closes over.
\<close>

definition tick :: "nat \<Rightarrow> typewriter \<Rightarrow> typewriter" where
  "tick h w =
     (case map_of (timers w) h of
        None \<Rightarrow> w
      | Some (text, index) \<Rightarrow>
          if index < length text
          then w\<lparr>displayedText := take (index + 1) text,
                 timers := map (\<lambda>t. if fst t = h then (h, text, index + 1) else t) (timers w)\<rparr>
          else clearInterval h (w\<lparr>isTyping := False\<rparr>))"

text \<open>The events of one hook instance over its life.\<close>

datatype typewriter_event = Render string nat int | Tick nat | Unmount

fun typewriter_step :: "typewriter \<Rightarrow> typewriter_event \<Rightarrow> typewriter" where
  "typewriter_step w (Render text speed trigger) = useTypewriter text speed trigger w"
| "typewriter_step w (Tick h) = tick h w"
| "typewriter_step w Unmount = run_cleanup w"

definition typewriter_run :: "typewriter_event list \<Rightarrow> typewriter" where
  "typewriter_run es = foldl typewriter_step initial_typewriter es"


section \<open>Data model\<close>

datatype knowledge_mode = Strict | Augmented | Expert

text \<open>The keys of \<open>KnowledgeModes\<close> and the \<open>name\<close> of each entry.\<close>

fun mode_key :: "knowledge_mode \<Rightarrow> string" where
  "mode_key Strict = ''strict''"
| "mode_key Augmented = ''augmented''"
| "mode_key Expert = ''expert''"

fun mode_name :: "knowledge_mode \<Rightarrow> string" where
  "mode_name Strict = ''Strict RAG''"
| "mode_name Augmented = ''Augmented''"
| "mode_name Expert = ''Expert Analysis''"

datatype role = User | Assistant

record response_metadata =
  mode :: string
  sources :: nat
  searchResults :: nat
  tokenUsage :: "nat option"

record message =
  role :: role
  content :: string
  timestamp :: string
  metadata :: "response_metadata option"

record document =
  pdf_id :: string
  pdf_name :: string
  chunk_count :: nat
  pages :: "nat list"

record upload_progress =
  total_files :: nat
  completed :: nat

text \<open>A \<open>File\<close>: its media type and its name.\<close>

record js_file =
  file_type :: string
  file_name :: string

text \<open>
  The JSON object of a response body, with the fields the client reads. \<open>success\<close> is the
  truthiness of \<open>data.success\<close>; \<open>data_error\<close> and \<open>data_documents\<close> are \<open>None\<close> when the
  field is absent.
\<close>

record data =
  success :: bool
  data_error :: "string option"
  data_documents :: "document list option"
  answer :: string
  data_timestamp :: string
  knowledge_mode :: string
  sources_used :: nat
  search_results_count :: nat
  token_usage :: "nat option"

text \<open>
  The response to the DELETE request: the \<open>content-type\<close> header (\<open>None\<close> when absent), the
  status line, and what \<open>response.json()\<close> gives.
\<close>

record delete_response =
  content_type :: "string option"
  status :: nat
  statusText :: string
  json :: "data awaited"

text \<open>The requests of the client, one for each awaited call, in the order of the calls.\<close>

datatype request =
    GetDocuments
  | PostUpload js_file
  | DeleteDocument string
  | PostChat string string

text \<open>
  The REST collaborator, a parameter of the model: each operation takes the backend in
  its current state and gives what the awaited call yields and the backend afterwards.
  For the list, upload and chat operations the yield is that of \<open>fetch\<close> followed by
  \<open>response.json()\<close>.
\<close>

record 's api =
  api_documents :: "'s \<Rightarrow> data awaited \<times> 's"
  api_upload :: "js_file \<Rightarrow> 's \<Rightarrow> data awaited \<times> 's"
  api_delete :: "string \<Rightarrow> 's \<Rightarrow> delete_response awaited \<times> 's"
  api_chat :: "string \<Rightarrow> string \<Rightarrow> 's \<Rightarrow> data awaited \<times> 's"

text \<open>
  The state of the \<open>PDFChatbot\<close> component: its \<open>useState\<close> cells, the \<open>dragCounter\<close> ref
  and the two typewriter hooks, together with the backend and the log of the requests
  issued so far.
\<close>

record 's app =
  messages :: "message list"
  inputMessage :: string
  documents :: "document list"
  knowledgeMode :: knowledge_mode
  isLoading :: bool
  uploadProgress :: "upload_progress option"
  error :: "string option"
  showModeMenu :: bool
  typingTrigger :: int
  isDragOver :: bool
  dragCounter :: int
  titleTw :: typewriter
  descTw :: typewriter
  server :: 's
  requests :: "request list"

definition initial_app :: "'s \<Rightarrow> 's app" where
  "initial_app sv =
     \<lparr>messages = [], inputMessage = [], documents = [], knowledgeMode = Augmented,
      isLoading = False, uploadProgress = None, error = None, showModeMenu = False,
      typingTrigger = 0, isDragOver = False, dragCounter = 0,
      titleTw = initial_typewriter, descTw = initial_typewriter,
      server = sv, requests = []\<rparr>"


section \<open>Document list\<close>

text \<open>
  \<open>fetchDocuments\<close>: the list is replaced by \<open>data.documents || []\<close> when the response
  carries \<open>success\<close>; the \<open>catch\<close> block only logs.
\<close>

definition fetchDocuments :: "'s api \<Rightarrow> 's app \<Rightarrow> 's app" where
  "fetchDocuments api s =
     (case api_documents api (server s) of
        (r, sv) \<Rightarrow>
          let s1 = s\<lparr>server := sv, requests := requests s @ [GetDocuments]\<rparr>
          in (case r of
                Resolved d \<Rightarrow>
                  if success d
                  then s1\<lparr>documents := (case data_documents d of None \<Rightarrow> [] | Some ds \<Rightarrow> ds)\<rparr>
                  else s1
              | Rejected msg \<Rightarrow> s1))"


section \<open>Upload pipeline\<close>

text \<open>The filter of \<open>processFiles\<close>.\<close>

definition is_pdf :: "js_file \<Rightarrow> bool" where
  "is_pdf f = (file_type f = ''application/pdf'' \<or> endsWith (toLowerCase (file_name f)) ''.pdf'')"

text \<open>
  \<open>processFiles\<close> is an \<open>async\<close> function: it runs up to an \<open>await\<close>, returns to the event
  loop, and resumes when the awaited call has settled; other handlers run in between.
  A step of the model is one awaited call, from its \<open>fetch\<close> to the state update that
  follows it, placed at the moment the call settles: between the \<open>fetch\<close> and that
  update the function reads and writes nothing of the component's state, so the
  states of the component are those of the source; a request is logged, and reaches
  the backend, when its step runs. The files that a batch has still to upload are the
  state of its loop; they are kept outside the component's state.

  An error thrown by a state updater reaches React while it renders, which unmounts
  the component: the run ends with that error.
\<close>

datatype js_error = TypeError

text \<open>
  The part of \<open>processFiles\<close> before its first \<open>await\<close>: the filter, the validation error,
  the new progress record. It gives the files of the batch, or \<open>None\<close> if the function
  has returned.
\<close>

definition processFiles_start :: "js_file list \<Rightarrow> 's app \<Rightarrow> 's app \<times> js_file list option" where
  "processFiles_start files s =
     (let pdfFiles = filter is_pdf files
      in if length pdfFiles = 0
         then (s\<lparr>error := Some ''Please upload PDF files only''\<rparr>, None)
         else (s\<lparr>uploadProgress := Some \<lparr>total_files = length pdfFiles, completed = 0\<rparr>,
                 error := None\<rparr>, Some pdfFiles))"

text \<open>
  One turn of the \<open>for\<close> loop: the POST is awaited, then \<open>completed\<close> is incremented or
  the error is set. The updater \<open>prev => ({...prev, completed: prev.completed + 1})\<close>
  reads \<open>prev.completed\<close>: on the progress \<open>null\<close> it throws a \<open>TypeError\<close>.
\<close>

definition upload_file :: "'s api \<Rightarrow> js_file \<Rightarrow> 's app \<Rightarrow> js_error + 's app" where
  "upload_file api f s =
     (case api_upload api f (server s) of
        (r, sv) \<Rightarrow>
          let s1 = s\<lparr>server := sv, requests := requests s @ [PostUpload f]\<rparr>
          in (case r of
                Resolved d \<Rightarrow>
                  if success d
                  then (case uploadProgress s1 of
                          None \<Rightarrow> Inl TypeError
                        | Some prev \<Rightarrow>
                            Inr (s1\<lparr>uploadProgress :=
                                      Some (prev\<lparr>completed := completed prev + 1\<rparr>)\<rparr>))
                  else Inr (s1\<lparr>error := Some (''Failed to upload '' @ file_name f @ '': ''
                                               @ or_else (data_error d) ''Unknown error'')\<rparr>)
              | Rejected msg \<Rightarrow>
                  Inr (s1\<lparr>error := Some (''Error uploading '' @ file_name f @ '': '' @ msg)\<rparr>)))"

text \<open>
  The end of \<open>processFiles\<close>, after the loop: \<open>await fetchDocuments()\<close> and
  \<open>setUploadProgress(null)\<close>.
\<close>

definition processFiles_finish :: "'s api \<Rightarrow> 's app \<Rightarrow> 's app" where
  "processFiles_finish api s = (fetchDocuments api s)\<lparr>uploadProgress := None\<rparr>"

text \<open>
  One step of a batch with the files \<open>fs\<close> still to upload, in the state that the
  component has by then: the next turn of the loop, or the end of the function when no
  file is left. It gives the files left afterwards, or \<open>None\<close> when the function has
  returned.
\<close>

fun processFiles_resume ::
    "'s api \<Rightarrow> js_file list \<Rightarrow> 's app \<Rightarrow> js_error + 's app \<times> js_file list option" where
  "processFiles_resume api [] s = Inr (processFiles_finish api s, None)"
| "processFiles_resume api (f # fs) s =
     (case upload_file api f s of Inl e \<Rightarrow> Inl e | Inr s' \<Rightarrow> Inr (s', Some fs))"

text \<open>The \<open>for\<close> loop when nothing else runs between its turns.\<close>

fun upload_loop :: "'s api \<Rightarrow> js_file list \<Rightarrow> 's app \<Rightarrow> js_error + 's app" where
  "upload_loop api [] s = Inr s"
| "upload_loop api (f # fs) s =
     (case upload_file api f s of Inl e \<Rightarrow> Inl e | Inr s' \<Rightarrow> upload_loop api fs s')"

text \<open>The whole of \<open>processFiles\<close> when nothing else runs before it returns.\<close>

definition processFiles :: "'s api \<Rightarrow> js_file list \<Rightarrow> 's app \<Rightarrow> js_error + 's app" where
  "processFiles api files s =
     (case processFiles_start files s of
        (s1, None) \<Rightarrow> Inr s1
      | (s1, Some pdfFiles) \<Rightarrow>
          (case upload_loop api pdfFiles s1 of
             Inl e \<Rightarrow> Inl e
           | Inr s2 \<Rightarrow> Inr (processFiles_finish api s2)))"

text \<open>
  \<open>handleFileUpload\<close> up to the first \<open>await\<close> of \<open>processFiles\<close>. The file input is opened
  by two buttons, both \<open>disabled={uploadProgress !== null}\<close>.
\<close>

definition handleFileUpload :: "js_file list \<Rightarrow> 's app \<Rightarrow> 's app \<times> js_file list option" where
  "handleFileUpload files s = (if length files = 0 then (s, None) else processFiles_start files s)"


section \<open>Drag zone\<close>

text \<open>
  \<open>has_items\<close> is the test \<open>e.dataTransfer.items && e.dataTransfer.items.length > 0\<close> of
  the event.
\<close>

definition handleDragEnter :: "bool \<Rightarrow> 's app \<Rightarrow> 's app" where
  "handleDragEnter has_items s =
     (let s1 = s\<lparr>dragCounter := dragCounter s + 1\<rparr>
      in if has_items then s1\<lparr>isDragOver := True\<rparr> else s1)"

definition handleDragLeave :: "'s app \<Rightarrow> 's app" where
  "handleDragLeave s =
     (let s1 = s\<lparr>dragCounter := dragCounter s - 1\<rparr>
      in if dragCounter s1 = 0 then s1\<lparr>isDragOver := False\<rparr> else s1)"

definition handleDragOver :: "'s app \<Rightarrow> 's app" where
  "handleDragOver s = s"

text \<open>
  \<open>handleDrop\<close> up to the first \<open>await\<close> of \<open>processFiles\<close>: the handler returns there, and
  it has no test of \<open>uploadProgress\<close>. The batch it started goes on by
  \<open>processFiles_resume\<close>.
\<close>

definition handleDrop :: "js_file list \<Rightarrow> 's app \<Rightarrow> 's app \<times> js_file list option" where
  "handleDrop files s =
     (let s1 = s\<lparr>isDragOver := False, dragCounter := 0\<rparr>
      in if length files > 0 then processFiles_start files s1 else (s1, None))"

datatype drag_event = DragEnter bool | DragLeave | DragOver | Drop "js_file list"

fun drag_step :: "'s app \<Rightarrow> drag_event \<Rightarrow> 's app" where
  "drag_step s (DragEnter has_items) = handleDragEnter has_items s"
| "drag_step s DragLeave = handleDragLeave s"
| "drag_step s DragOver = handleDragOver s"
| "drag_step s (Drop files) = fst (handleDrop files s)"

definition drag_run :: "drag_event list \<Rightarrow> 's app \<Rightarrow> 's app" where
  "drag_run es s = foldl drag_step s es"

text \<open>
  A sequence of drag events in which every leave arrives while the counter is positive.
\<close>

fun leaves_matched :: "drag_event list \<Rightarrow> 's app \<Rightarrow> bool" where
  "leaves_matched [] s = True"
| "leaves_matched (e # es) s =
     ((e = DragLeave \<longrightarrow> 0 < dragCounter s) \<and> leaves_matched es (drag_step s e))"


section \<open>Deleting a document\<close>

definition has_json_content_type :: "delete_response \<Rightarrow> bool" where
  "has_json_content_type r =
     (case content_type r of
        None \<Rightarrow> False
      | Some ct \<Rightarrow> ct \<noteq> [] \<and> includes_str ct ''application/json'')"

text \<open>\<open>confirm\<close> is \<open>window.confirm\<close>: the answer of the user to the question shown.\<close>

definition handleDeleteDocument ::
    "'s api \<Rightarrow> (string \<Rightarrow> bool) \<Rightarrow> string \<Rightarrow> string \<Rightarrow> 's app \<Rightarrow> 's app" where
  "handleDeleteDocument api confirm pdfId pdfName s =
     (if \<not> confirm (''Delete \"'' @ pdfName @ ''\"?'') then s
      else
        (case api_delete api pdfId (server s) of
           (r, sv) \<Rightarrow>
             let s1 = s\<lparr>server := sv, requests := requests s @ [DeleteDocument pdfId]\<rparr>
             in (case r of
                   Rejected msg \<Rightarrow> s1\<lparr>error := Some (''Failed to delete document: '' @ msg)\<rparr>
                 | Resolved response \<Rightarrow>
                     if \<not> has_json_content_type response
                     then s1\<lparr>error := Some (''Failed to delete document: ''
                                @ ''Server returned non-JSON response: ''
                                @ string_of_nat (status response) @ '' '' @ statusText response)\<rparr>
                     else
                       (case json response of
                          Rejected msg \<Rightarrow>
                            s1\<lparr>error := Some (''Failed to delete document: '' @ msg)\<rparr>
                        | Resolved d \<Rightarrow>
                            if success d then (fetchDocuments api s1)\<lparr>error := None\<rparr>
                            else s1\<lparr>error :=
                                      Some (or_else (data_error d) ''Failed to delete document'')\<rparr>))))"


section \<open>Chat session\<close>

text \<open>
  \<open>handleSendMessage\<close> up to its first \<open>await\<close>: the guard, the user message, the state
  updates and the \<open>fetch\<close> call, whose body \<open>{question, knowledge_mode}\<close> is returned.
  \<open>now\<close> is \<open>new Date().toISOString()\<close>.
\<close>

definition handleSendMessage_start :: "string \<Rightarrow> 's app \<Rightarrow> 's app \<times> (string \<times> string) option" where
  "handleSendMessage_start now s =
     (if trim (inputMessage s) = [] \<or> isLoading s then (s, None)
      else
        let userMessage = \<lparr>role = User, content = inputMessage s, timestamp = now,
                           metadata = None\<rparr>;
            question = inputMessage s;
            km = mode_key (knowledgeMode s)
        in (s\<lparr>messages := messages s @ [userMessage], inputMessage := [], isLoading := True,
              error := None, requests := requests s @ [PostChat question km]\<rparr>,
            Some (question, km)))"

definition assistantMessage :: "data \<Rightarrow> message" where
  "assistantMessage d =
     \<lparr>role = Assistant, content = answer d, timestamp = data_timestamp d,
      metadata = Some \<lparr>mode = knowledge_mode d, sources = sources_used d,
                       searchResults = search_results_count d, tokenUsage = token_usage d\<rparr>\<rparr>"

text \<open>
  The rest of \<open>handleSendMessage\<close>, run when the request has settled: the \<open>try\<close> body after
  the \<open>await\<close>, the \<open>catch\<close> block and the \<open>finally\<close> block.
\<close>

definition handleSendMessage_finish :: "data awaited \<Rightarrow> 's app \<Rightarrow> 's app" where
  "handleSendMessage_finish r s =
     (let s1 = (case r of
                  Resolved d \<Rightarrow>
                    if success d then s\<lparr>messages := messages s @ [assistantMessage d]\<rparr>
                    else s\<lparr>error := Some (or_else (data_error d) ''Failed to get response'')\<rparr>
                | Rejected msg \<Rightarrow> s\<lparr>error := Some (''Error: '' @ msg)\<rparr>)
      in s1\<lparr>isLoading := False\<rparr>)"

definition handleSendMessage :: "'s api \<Rightarrow> string \<Rightarrow> 's app \<Rightarrow> 's app" where
  "handleSendMessage api now s =
     (case handleSendMessage_start now s of
        (s1, None) \<Rightarrow> s1
      | (s1, Some (question, km)) \<Rightarrow>
          (case api_chat api question km (server s1) of
             (r, sv) \<Rightarrow> handleSendMessage_finish r (s1\<lparr>server := sv\<rparr>)))"


section \<open>Mode selector and empty-state banner\<close>

definition handleModeSelect :: "knowledge_mode \<Rightarrow> 's app \<Rightarrow> 's app" where
  "handleModeSelect m s =
     s\<lparr>knowledgeMode := m, showModeMenu := False, typingTrigger := typingTrigger s + 1\<rparr>"

definition handleSidebarModeChange :: "knowledge_mode \<Rightarrow> 's app \<Rightarrow> 's app" where
  "handleSidebarModeChange m s = s\<lparr>knowledgeMode := m, typingTrigger := typingTrigger s + 1\<rparr>"

definition titleText :: string where
  "titleText = ''Ready to chat with your PDFs''"

definition descriptionText :: "knowledge_mode \<Rightarrow> string" where
  "descriptionText m =
     ''Upload some PDF documents and ask questions. I'' @ [CHR 0x27]
     @ ''ll help you find information using '' @ mode_name m @ '' mode.''"

text \<open>
  One render of the component, with the effects of the two hooks committed. Both calls
  read the state of this render: \<open>isTitleTyping\<close> is the title's \<open>isTyping\<close> before its
  effect runs.
\<close>

definition render :: "'s app \<Rightarrow> 's app" where
  "render s =
     (let isTitleTyping = isTyping (titleTw s)
      in s\<lparr>titleTw := useTypewriter titleText 40 (typingTrigger s) (titleTw s),
           descTw := useTypewriter (descriptionText (knowledgeMode s)) 20
                       (if isTitleTyping then - 1 else typingTrigger s) (descTw s)\<rparr>)"

text \<open>
  What the banner shows: \<open>{displayedTitle}\<close> and \<open>{!isTitleTyping && displayedDescription}\<close>.
\<close>

definition shown_title :: "'s app \<Rightarrow> string" where
  "shown_title s = displayedText (titleTw s)"

definition shown_description :: "'s app \<Rightarrow> string" where
  "shown_description s = (if isTyping (titleTw s) then [] else displayedText (descTw s))"

text \<open>A tick of an interval of the title hook or of the description hook.\<close>

definition tick_title :: "nat \<Rightarrow> 's app \<Rightarrow> 's app" where
  "tick_title h s = s\<lparr>titleTw := tick h (titleTw s)\<rparr>"

definition tick_description :: "nat \<Rightarrow> 's app \<Rightarrow> 's app" where
  "tick_description h s = s\<lparr>descTw := tick h (descTw s)\<rparr>"


section \<open>Vocabulary of the statements\<close>

text \<open>
  A refresh of the document list fails when the awaited call is rejected (transport or
  parse error) or the response does not carry \<open>success\<close>.
\<close>

definition refresh_fails :: "'s api \<Rightarrow> 's \<Rightarrow> bool" where
  "refresh_fails api sv =
     (case fst (api_documents api sv) of Rejected msg \<Rightarrow> True | Resolved d \<Rightarrow> \<not> success d)"

text \<open>
  For a batch that runs alone: the backend after its files have been submitted one after
  the other, and what each submission yields; file \<open>i + 1\<close> meets the backend that file
  \<open>i\<close> left.
\<close>

fun server_after_uploads :: "'s api \<Rightarrow> js_file list \<Rightarrow> 's \<Rightarrow> 's" where
  "server_after_uploads api [] sv = sv"
| "server_after_uploads api (f # fs) sv = server_after_uploads api fs (snd (api_upload api f sv))"

fun upload_results :: "'s api \<Rightarrow> js_file list \<Rightarrow> 's \<Rightarrow> (js_file \<times> data awaited) list" where
  "upload_results api [] sv = []"
| "upload_results api (f # fs) sv =
     (f, fst (api_upload api f sv)) # upload_results api fs (snd (api_upload api f sv))"

definition upload_succeeded :: "js_file \<times> data awaited \<Rightarrow> bool" where
  "upload_succeeded fr = (case snd fr of Rejected msg \<Rightarrow> False | Resolved d \<Rightarrow> success d)"

definition upload_failure_message :: "js_file \<times> data awaited \<Rightarrow> string" where
  "upload_failure_message fr =
     (case snd fr of
        Rejected msg \<Rightarrow> ''Error uploading '' @ file_name (fst fr) @ '': '' @ msg
      | Resolved d \<Rightarrow> ''Failed to upload '' @ file_name (fst fr) @ '': ''
                       @ or_else (data_error d) ''Unknown error'')"

definition last_failure :: "(js_file \<times> data awaited) list \<Rightarrow> string option" where
  "last_failure rs =
     (case rev (filter (\<lambda>fr. \<not> upload_succeeded fr) rs) of
        [] \<Rightarrow> None
      | fr # frs \<Rightarrow> Some (upload_failure_message fr))"

text \<open>A chat request that failed, and the reason the client reports for it.\<close>

definition request_failed :: "data awaited \<Rightarrow> bool" where
  "request_failed r = (case r of Rejected msg \<Rightarrow> True | Resolved d \<Rightarrow> \<not> success d)"

definition failure_reason :: "data awaited \<Rightarrow> string" where
  "failure_reason r =
     (case r of
        Rejected msg \<Rightarrow> ''Error: '' @ msg
      | Resolved d \<Rightarrow> or_else (data_error d) ''Failed to get response'')"

text \<open>
  A hook instance with at most one live interval, which is the one its cleanup clears.
\<close>

definition single_cycle :: "typewriter \<Rightarrow> bool" where
  "single_cycle w =
     ((case timers w of
         [] \<Rightarrow> True
       | [t] \<Rightarrow> cleanup w = Some (fst t)
       | t # u # ts \<Rightarrow> False)
      \<and> (case cleanup w of None \<Rightarrow> True | Some h \<Rightarrow> h < fresh w))"

text \<open>
  The events that reach the banner: a render of the component, a tick of an interval of
  either hook, and the two mode handlers.
\<close>

datatype banner_event =
    Rerender
  | TitleTick nat
  | DescriptionTick nat
  | ModeSelect knowledge_mode
  | SidebarModeChange knowledge_mode

fun banner_step :: "'s app \<Rightarrow> banner_event \<Rightarrow> 's app" where
  "banner_step s Rerender = render s"
| "banner_step s (TitleTick h) = tick_title h s"
| "banner_step s (DescriptionTick h) = tick_description h s"
| "banner_step s (ModeSelect m) = handleModeSelect m s"
| "banner_step s (SidebarModeChange m) = handleSidebarModeChange m s"

definition banner_run :: "banner_event list \<Rightarrow> 's \<Rightarrow> 's app" where
  "banner_run es sv = foldl banner_step (initial_app sv) es"

definition banner_ok :: "'s app \<Rightarrow> bool" where
  "banner_ok s = (single_cycle (titleTw s) \<and> single_cycle (descTw s) \<and> 0 \<le> typingTrigger s)"


section \<open>An example backend\<close>

text \<open>
  A backend that stores the uploaded documents, for the worked examples. It refuses the
  file \<open>big.pdf\<close>, is unreachable for \<open>lost.pdf\<close>, answers a DELETE of \<open>gateway\<close> with an
  HTML error page, and has no answer while it holds no document. When \<open>online\<close> is false
  its list operation is unreachable.
\<close>

definition json_ok :: data where
  "json_ok =
     \<lparr>success = True, data_error = None, data_documents = None, answer = [],
      data_timestamp = [], knowledge_mode = [], sources_used = 0, search_results_count = 0,
      token_usage = None\<rparr>"

definition json_error :: "string \<Rightarrow> data" where
  "json_error msg = json_ok\<lparr>success := False, data_error := Some msg\<rparr>"

definition stored :: "string \<Rightarrow> document" where
  "stored n = \<lparr>pdf_id = n, pdf_name = n, chunk_count = 1, pages = [1]\<rparr>"

definition example_api :: "bool \<Rightarrow> document list api" where
  "example_api online =
     \<lparr>api_documents = (\<lambda>docs.
        if online then (Resolved (json_ok\<lparr>data_documents := Some docs\<rparr>), docs)
        else (Rejected ''Failed to fetch'', docs)),
      api_upload = (\<lambda>f docs.
        if file_name f = ''big.pdf'' then (Resolved (json_error ''File too large''), docs)
        else if file_name f = ''lost.pdf'' then (Rejected ''Failed to fetch'', docs)
        else (Resolved json_ok, docs @ [stored (file_name f)])),
      api_delete = (\<lambda>i docs.
        if i = ''gateway''
        then (Resolved \<lparr>content_type = Some ''text/html'', status = 502,
                statusText = ''Bad Gateway'', json = Rejected ''Unexpected token''\<rparr>, docs)
        else if i = ''offline'' then (Rejected ''Failed to fetch'', docs)
        else if i \<in> set (map pdf_id docs)
        then (Resolved \<lparr>content_type = Some ''application/json'', status = 200,
                statusText = ''OK'', json = Resolved json_ok\<rparr>,
              filter (\<lambda>d. pdf_id d \<noteq> i) docs)
        else (Resolved \<lparr>content_type = Some ''application/json'', status = 404,
                statusText = ''Not Found'', json = Resolved (json_error ''Document not found'')\<rparr>,
              docs)),
      api_chat = (\<lambda>q km docs.
        if docs = [] then (Resolved (json_error ''No documents''), docs)
        else if q = ''ping'' then (Rejected ''Failed to fetch'', docs)
        else (Resolved (json_ok\<lparr>answer := ''It is about black holes.'',
                data_timestamp := ''t1'', knowledge_mode := km,
                sources_used := length docs, search_results_count := 1,
                token_usage := Some 10\<rparr>), docs))\<rparr>"

definition example_files :: "js_file list" where
  "example_files =
     [\<lparr>file_type = ''application/pdf'', file_name = ''a''\<rparr>,
      \<lparr>file_type = ''text/plain'', file_name = ''notes.txt''\<rparr>,
      \<lparr>file_type = [], file_name = ''big.pdf''\<rparr>,
      \<lparr>file_type = [], file_name = ''C.PDF''\<rparr>]"

definition empty_app :: "document list app" where
  "empty_app = initial_app []"

definition loaded_app :: "document list app" where
  "loaded_app = initial_app [stored ''x.pdf'']"

text \<open>
  Two drops of one file each, the second before the upload of the first has settled;
  then the state once the first upload has settled, and the state once the first batch
  has returned.
\<close>

definition file_a :: js_file where
  "file_a = \<lparr>file_type = ''application/pdf'', file_name = ''a.pdf''\<rparr>"

definition file_b :: js_file where
  "file_b = \<lparr>file_type = ''application/pdf'', file_name = ''b.pdf''\<rparr>"

definition two_drops :: "document list app" where
  "two_drops = fst (handleDrop [file_b] (fst (handleDrop [file_a] (initial_app []))))"

definition first_settled :: "document list app" where
  "first_settled =
     two_drops\<lparr>server := [stored ''a.pdf''], requests := [PostUpload file_a],
               uploadProgress := Some \<lparr>total_files = 1, completed = 1\<rparr>\<rparr>"

definition first_returned :: "document list app" where
  "first_returned =
     first_settled\<lparr>requests := [PostUpload file_a, GetDocuments],
                   documents := [stored ''a.pdf''], uploadProgress := None\<rparr>"


section \<open>Auxiliary facts\<close>

subsection \<open>Strings\<close>


lemma trim_Nil: "trim [] = []"
  by (simp add: trim_def)


subsection \<open>Document list and upload loop\<close>

lemma fetchDocuments_documents:
  "documents (fetchDocuments api s) =
     (case fst (api_documents api (server s)) of
        Rejected msg \<Rightarrow> documents s
      | Resolved d \<Rightarrow>
          if success d then (case data_documents d of None \<Rightarrow> [] | Some ds \<Rightarrow> ds)
          else documents s)"
  by (simp add: fetchDocuments_def Let_def split: prod.splits awaited.splits)

lemma fetchDocuments_frame:
  "messages (fetchDocuments api s) = messages s"
  "inputMessage (fetchDocuments api s) = inputMessage s"
  "isLoading (fetchDocuments api s) = isLoading s"
  "uploadProgress (fetchDocuments api s) = uploadProgress s"
  "error (fetchDocuments api s) = error s"
  "isDragOver (fetchDocuments api s) = isDragOver s"
  "dragCounter (fetchDocuments api s) = dragCounter s"
  "requests (fetchDocuments api s) = requests s @ [GetDocuments]"
  "server (fetchDocuments api s) = snd (api_documents api (server s))"
  by (simp_all add: fetchDocuments_def Let_def split: prod.splits awaited.splits)

lemma processFiles_finish_frame:
  "messages (processFiles_finish api s) = messages s"
  "error (processFiles_finish api s) = error s"
  "isDragOver (processFiles_finish api s) = isDragOver s"
  "dragCounter (processFiles_finish api s) = dragCounter s"
  "uploadProgress (processFiles_finish api s) = None"
  "requests (processFiles_finish api s) = requests s @ [GetDocuments]"
  "server (processFiles_finish api s) = snd (api_documents api (server s))"
  "documents (processFiles_finish api s) = documents (fetchDocuments api s)"
  by (simp_all add: processFiles_finish_def fetchDocuments_frame)

lemma upload_file_frame:
  assumes "upload_file api f s = Inr s'"
  shows "documents s' = documents s" "messages s' = messages s"
    "isDragOver s' = isDragOver s" "dragCounter s' = dragCounter s"
  using assms
  by (auto simp: upload_file_def Let_def split: prod.splits awaited.splits if_splits option.splits)

lemma upload_file_alone:
  assumes "uploadProgress s = Some p"
  shows "upload_file api f s =
     Inr (s\<lparr>server := snd (api_upload api f (server s)),
            requests := requests s @ [PostUpload f],
            uploadProgress :=
              Some (if upload_succeeded (f, fst (api_upload api f (server s)))
                    then p\<lparr>completed := completed p + 1\<rparr> else p),
            error := (if upload_succeeded (f, fst (api_upload api f (server s))) then error s
                      else Some (upload_failure_message (f, fst (api_upload api f (server s)))))\<rparr>)"
  using assms
  by (simp add: upload_file_def upload_succeeded_def upload_failure_message_def
        Let_def split: prod.splits awaited.splits)

lemma last_failure_Cons:
  "last_failure (fr # rs) =
     (case last_failure rs of
        Some m \<Rightarrow> Some m
      | None \<Rightarrow> if upload_succeeded fr then None else Some (upload_failure_message fr))"
  by (cases "rev (filter (\<lambda>fr. \<not> upload_succeeded fr) rs)") (simp_all add: last_failure_def)

lemma upload_loop_alone:
  assumes "uploadProgress s = Some p"
  shows "upload_loop api fs s =
     Inr (s\<lparr>server := server_after_uploads api fs (server s),
            requests := requests s @ map PostUpload fs,
            uploadProgress :=
              Some (p\<lparr>completed := completed p
                        + length (filter upload_succeeded (upload_results api fs (server s)))\<rparr>),
            error := (case last_failure (upload_results api fs (server s)) of
                        None \<Rightarrow> error s
                      | Some m \<Rightarrow> Some m)\<rparr>)"
  using assms
proof (induction fs arbitrary: s p)
  case Nil
  then show ?case by (simp add: last_failure_def)
next
  case (Cons f fs)
  let ?r = "fst (api_upload api f (server s))"
  let ?p = "if upload_succeeded (f, ?r) then p\<lparr>completed := completed p + 1\<rparr> else p"
  let ?s' = "s\<lparr>server := snd (api_upload api f (server s)),
            requests := requests s @ [PostUpload f],
            uploadProgress := Some ?p,
            error := (if upload_succeeded (f, ?r) then error s
                      else Some (upload_failure_message (f, ?r)))\<rparr>"
  have step: "upload_file api f s = Inr ?s'"
    using Cons.prems by (rule upload_file_alone)
  have "uploadProgress ?s' = Some ?p"
    by simp
  note rest = Cons.IH[OF this]
  show ?case
  proof (cases "upload_succeeded (f, ?r)")
    case True
    with step rest show ?thesis
      by (simp add: last_failure_Cons split: option.splits)
  next
    case False
    with step rest show ?thesis
      by (simp add: last_failure_Cons split: option.splits)
  qed
qed

lemma upload_results_length: "length (upload_results api fs sv) = length fs"
  by (induction fs arbitrary: sv) simp_all

lemma upload_results_files: "map fst (upload_results api fs sv) = fs"
  by (induction fs arbitrary: sv) simp_all

lemma upload_results_take:
  "upload_results api (take k fs) sv = take k (upload_results api fs sv)"
proof (induction fs arbitrary: sv k)
  case Nil
  then show ?case by simp
next
  case (Cons f fs)
  then show ?case by (cases k) simp_all
qed

lemma processFiles_start_frame:
  "isDragOver (fst (processFiles_start files s)) = isDragOver s"
  "dragCounter (fst (processFiles_start files s)) = dragCounter s"
  "messages (fst (processFiles_start files s)) = messages s"
  "documents (fst (processFiles_start files s)) = documents s"
  "requests (fst (processFiles_start files s)) = requests s"
  "server (fst (processFiles_start files s)) = server s"
  by (simp_all add: processFiles_start_def Let_def)

lemma processFiles_rejected:
  "filter is_pdf files = [] \<Longrightarrow>
     processFiles api files s = Inr (s\<lparr>error := Some ''Please upload PDF files only''\<rparr>)"
  by (simp add: processFiles_def processFiles_start_def)

lemma processFiles_accepted:
  assumes "filter is_pdf files \<noteq> []"
  shows "processFiles api files s =
     Inr (processFiles_finish api
       (s\<lparr>server := server_after_uploads api (filter is_pdf files) (server s),
          requests := requests s @ map PostUpload (filter is_pdf files),
          uploadProgress :=
            Some \<lparr>total_files = length (filter is_pdf files),
                  completed = length (filter upload_succeeded
                                (upload_results api (filter is_pdf files) (server s)))\<rparr>,
          error := last_failure (upload_results api (filter is_pdf files) (server s))\<rparr>))"
proof -
  let ?s1 = "s\<lparr>uploadProgress := Some \<lparr>total_files = length (filter is_pdf files), completed = 0\<rparr>,
               error := None\<rparr>"
  have "uploadProgress ?s1 = Some \<lparr>total_files = length (filter is_pdf files), completed = 0\<rparr>"
    by simp
  from upload_loop_alone[OF this, of api "filter is_pdf files"] assms show ?thesis
    by (simp add: processFiles_def processFiles_start_def Let_def split: option.splits)
qed

lemma processFiles_documents:
  "map_sum (\<lambda>e. e) documents (processFiles api files s) =
     Inr (if filter is_pdf files = [] then documents s
          else documents (fetchDocuments api
                 (s\<lparr>server := server_after_uploads api (filter is_pdf files) (server s)\<rparr>)))"
  by (simp add: processFiles_rejected processFiles_accepted processFiles_finish_frame
        fetchDocuments_documents split: awaited.splits)


subsection \<open>Drag zone\<close>

lemma handleDrop_resets:
  "dragCounter (fst (handleDrop files s)) = 0 \<and> \<not> isDragOver (fst (handleDrop files s))"
  by (simp add: handleDrop_def Let_def processFiles_start_frame)

lemma processFiles_resume_frame:
  assumes "processFiles_resume api fs s = Inr (s', k)"
  shows "dragCounter s' = dragCounter s" "isDragOver s' = isDragOver s"
  using assms
  by (cases fs; auto simp: processFiles_finish_frame upload_file_frame split: sum.splits)+

lemma drag_step_nonneg:
  "0 \<le> dragCounter s \<Longrightarrow> (e = DragLeave \<longrightarrow> 0 < dragCounter s)
     \<Longrightarrow> 0 \<le> dragCounter (drag_step s e)"
  by (cases e)
     (simp_all add: handleDragEnter_def handleDragLeave_def handleDragOver_def handleDrop_resets
        Let_def)

lemma drag_run_snoc: "drag_run (es @ [e]) s = drag_step (drag_run es s) e"
  by (simp add: drag_run_def)

lemma drag_run_Cons: "drag_run (e # es) s = drag_run es (drag_step s e)"
  by (simp add: drag_run_def)

lemma drag_run_nonneg:
  "0 \<le> dragCounter s \<Longrightarrow> leaves_matched es s \<Longrightarrow> 0 \<le> dragCounter (drag_run es s)"
proof (induction es arbitrary: s)
  case Nil
  then show ?case by (simp add: drag_run_def)
next
  case (Cons e es)
  from Cons.prems have "0 \<le> dragCounter (drag_step s e)"
    by (intro drag_step_nonneg) simp_all
  moreover from Cons.prems have "leaves_matched es (drag_step s e)" by simp
  ultimately show ?case
    by (simp add: drag_run_Cons Cons.IH)
qed

lemma leaves_matched_take:
  "leaves_matched es s \<Longrightarrow> leaves_matched (take n es) s"
proof (induction es arbitrary: s n)
  case Nil
  then show ?case by simp
next
  case (Cons e es)
  then show ?case by (cases n) simp_all
qed


subsection \<open>Chat session\<close>

lemma start_rejected:
  "trim (inputMessage s) = [] \<or> isLoading s \<Longrightarrow> handleSendMessage_start now s = (s, None)"
  by (auto simp: handleSendMessage_start_def)

lemma start_accepted:
  "trim (inputMessage s) \<noteq> [] \<Longrightarrow> \<not> isLoading s \<Longrightarrow>
     handleSendMessage_start now s =
       (s\<lparr>messages := messages s
              @ [\<lparr>role = User, content = inputMessage s, timestamp = now, metadata = None\<rparr>],
           inputMessage := [], isLoading := True, error := None,
           requests := requests s @ [PostChat (inputMessage s) (mode_key (knowledgeMode s))]\<rparr>,
        Some (inputMessage s, mode_key (knowledgeMode s)))"
  by (simp add: handleSendMessage_start_def Let_def)


subsection \<open>Typewriter\<close>

lemma single_cycle_cases:
  assumes "single_cycle w"
  obtains "timers w = []" "\<forall>h. cleanup w = Some h \<longrightarrow> h < fresh w"
  | h src index where "timers w = [(h, src, index)]" "cleanup w = Some h" "h < fresh w"
proof (cases "timers w")
  case Nil
  with assms show ?thesis using that(1) by (auto simp: single_cycle_def split: option.splits)
next
  case (Cons t ts)
  with assms have "ts = []" "cleanup w = Some (fst t)" "fst t < fresh w"
    by (auto simp: single_cycle_def split: list.splits option.splits)
  with Cons show ?thesis using that(2)[of "fst t" "fst (snd t)" "snd (snd t)"] by simp
qed

lemma run_cleanup_timers: "single_cycle w \<Longrightarrow> timers (run_cleanup w) = []"
  by (erule single_cycle_cases) (auto simp: run_cleanup_def clearInterval_def split: option.splits)

lemma run_cleanup_fields:
  "fresh (run_cleanup w) = fresh w"
  "cleanup (run_cleanup w) = cleanup w"
  "displayedText (run_cleanup w) = displayedText w"
  "isTyping (run_cleanup w) = isTyping w"
  "deps (run_cleanup w) = deps w"
  by (simp_all add: run_cleanup_def clearInterval_def split: option.splits)

lemma run_effect_fields:
  "displayedText (run_effect text speed trigger w) = []"
  "isTyping (run_effect text speed trigger w)"
  "deps (run_effect text speed trigger w) = Some (text, speed, trigger)"
  "cleanup (run_effect text speed trigger w) = Some (fresh w)"
  "fresh (run_effect text speed trigger w) = Suc (fresh w)"
  by (simp_all add: run_effect_def Let_def run_cleanup_fields)

lemma run_effect_timers:
  "single_cycle w \<Longrightarrow> timers (run_effect text speed trigger w) = [(fresh w, text, 0)]"
  by (simp add: run_effect_def Let_def run_cleanup_fields run_cleanup_timers)

lemma single_cycle_run_effect:
  "single_cycle w \<Longrightarrow> single_cycle (run_effect text speed trigger w)"
  by (simp add: single_cycle_def[of "run_effect text speed trigger w"] run_effect_timers
        run_effect_fields)

lemma single_cycle_useTypewriter:
  "single_cycle w \<Longrightarrow> single_cycle (useTypewriter text speed trigger w)"
  by (simp add: useTypewriter_def single_cycle_run_effect)

lemma tick_stale: "map_of (timers w) h = None \<Longrightarrow> tick h w = w"
  by (simp add: tick_def)

lemma single_cycle_tick: "single_cycle w \<Longrightarrow> single_cycle (tick h w)"
  by (erule single_cycle_cases)
     (auto simp: tick_def single_cycle_def clearInterval_def split: option.splits)

lemma single_cycle_run_cleanup: "single_cycle w \<Longrightarrow> single_cycle (run_cleanup w)"
  by (erule single_cycle_cases)
     (auto simp: run_cleanup_def single_cycle_def clearInterval_def split: option.splits)

lemma single_cycle_initial: "single_cycle initial_typewriter"
  by (simp add: single_cycle_def initial_typewriter_def)

lemma single_cycle_step: "single_cycle w \<Longrightarrow> single_cycle (typewriter_step w e)"
  by (cases e) (simp_all add: single_cycle_useTypewriter single_cycle_tick single_cycle_run_cleanup)

lemma single_cycle_run: "single_cycle (typewriter_run es)"
  unfolding typewriter_run_def
  by (induction es rule: rev_induct) (simp_all add: single_cycle_initial single_cycle_step)

lemma tick_live:
  "timers w = [(h, src, i)] \<Longrightarrow> i < length src \<Longrightarrow>
     tick h w = w\<lparr>displayedText := take (Suc i) src, timers := [(h, src, Suc i)]\<rparr>"
  by (simp add: tick_def)

lemma tick_last:
  "timers w = [(h, src, i)] \<Longrightarrow> \<not> i < length src \<Longrightarrow>
     tick h w = w\<lparr>isTyping := False, timers := []\<rparr>"
  by (simp add: tick_def clearInterval_def)

lemma ticks_reveal:
  assumes "timers w = [(h, src, 0)]" "displayedText w = []" "k \<le> length src"
  shows "(tick h ^^ k) w = w\<lparr>displayedText := take k src, timers := [(h, src, k)]\<rparr>"
  using assms(3)
proof (induction k)
  case 0
  with assms(1,2) show ?case by simp
next
  case (Suc k)
  then have "(tick h ^^ k) w = w\<lparr>displayedText := take k src, timers := [(h, src, k)]\<rparr>"
    by simp
  moreover have "tick h (w\<lparr>displayedText := take k src, timers := [(h, src, k)]\<rparr>)
      = w\<lparr>displayedText := take (Suc k) src, timers := [(h, src, Suc k)]\<rparr>"
    using Suc.prems by (simp add: tick_live[where src = src and i = k])
  ultimately show ?case by simp
qed

lemma ticks_finish:
  assumes "timers w = [(h, src, 0)]" "displayedText w = []"
  shows "(tick h ^^ (Suc (length src + n))) w
           = w\<lparr>displayedText := src, isTyping := False, timers := []\<rparr>"
proof (induction n)
  case 0
  have "(tick h ^^ length src) w
          = w\<lparr>displayedText := take (length src) src, timers := [(h, src, length src)]\<rparr>"
    using assms by (intro ticks_reveal) simp_all
  moreover have "tick h (w\<lparr>displayedText := src, timers := [(h, src, length src)]\<rparr>)
          = w\<lparr>displayedText := src, isTyping := False, timers := []\<rparr>"
    by (simp add: tick_last[where src = src and i = "length src"])
  ultimately show ?case by simp
next
  case (Suc n)
  have "tick h (w\<lparr>displayedText := src, isTyping := False, timers := []\<rparr>)
          = w\<lparr>displayedText := src, isTyping := False, timers := []\<rparr>"
    by (simp add: tick_stale)
  moreover have "(tick h ^^ Suc (Suc (length src + n))) w
          = tick h ((tick h ^^ Suc (length src + n)) w)"
    by simp
  ultimately show ?case using Suc by (simp del: funpow.simps)
qed

lemma ticks_stale:
  assumes "timers w = [(h, src, 0)]" "displayedText w = []" "h' \<noteq> h"
  shows "tick h' ((tick h ^^ k) w) = (tick h ^^ k) w"
proof (cases "k \<le> length src")
  case True
  with assms show ?thesis by (simp add: ticks_reveal tick_stale)
next
  case False
  then obtain n where "k = Suc (length src + n)"
    by (metis Suc_leI add_Suc le_Suc_ex not_le_imp_less)
  with assms show ?thesis by (simp add: ticks_finish tick_stale del: funpow.simps)
qed

lemma banner_ok_initial: "banner_ok (initial_app sv)"
  by (simp add: banner_ok_def initial_app_def single_cycle_initial)

lemma banner_ok_step: "banner_ok s \<Longrightarrow> banner_ok (banner_step s e)"
  by (cases e)
     (simp_all add: banner_ok_def render_def tick_title_def tick_description_def
        handleModeSelect_def handleSidebarModeChange_def Let_def
        single_cycle_useTypewriter single_cycle_tick)

lemma banner_ok_run: "banner_ok (banner_run es sv)"
  unfolding banner_run_def
  by (induction es rule: rev_induct) (simp_all add: banner_ok_initial banner_ok_step)

lemma render_descTw:
  "descTw (render s) =
     useTypewriter (descriptionText (knowledgeMode s)) 20
       (if isTyping (titleTw s) then - 1 else typingTrigger s) (descTw s)"
  by (simp add: render_def Let_def)

lemma useTypewriter_deps: "deps (useTypewriter src speed trigger w) = Some (src, speed, trigger)"
  by (simp add: useTypewriter_def run_effect_fields)

lemma useTypewriter_restart:
  "single_cycle w \<Longrightarrow> deps w \<noteq> Some (src, speed, trigger) \<Longrightarrow>
     displayedText (useTypewriter src speed trigger w) = []
     \<and> isTyping (useTypewriter src speed trigger w)
     \<and> timers (useTypewriter src speed trigger w) = [(fresh w, src, 0)]"
  by (simp add: useTypewriter_def run_effect_fields run_effect_timers)


lemma render_titleTw:
  "titleTw (render s) = useTypewriter titleText 40 (typingTrigger s) (titleTw s)"
  by (simp add: render_def Let_def)

lemma tick_description_funpow:
  "descTw ((tick_description h ^^ k) s) = (tick h ^^ k) (descTw s)"
  "titleTw ((tick_description h ^^ k) s) = titleTw s"
  by (induction k) (simp_all add: tick_description_def)

lemma description_reveal:
  assumes "single_cycle (descTw s)" "deps (descTw s) \<noteq> Some (src, speed, trigger)"
    "descTw s' = useTypewriter src speed trigger (descTw s)" "k \<le> length src"
  shows "displayedText (descTw ((tick_description (fresh (descTw s)) ^^ k) s')) = take k src"
    "timers (descTw ((tick_description (fresh (descTw s)) ^^ k) s'))
       = [(fresh (descTw s), src, k)]"
proof -
  from assms(1,2) have "timers (useTypewriter src speed trigger (descTw s))
      = [(fresh (descTw s), src, 0)]"
    "displayedText (useTypewriter src speed trigger (descTw s)) = []"
    by (simp_all add: useTypewriter_restart)
  from ticks_reveal[OF this assms(4)] assms(3)
  show "displayedText (descTw ((tick_description (fresh (descTw s)) ^^ k) s')) = take k src"
    "timers (descTw ((tick_description (fresh (descTw s)) ^^ k) s'))
       = [(fresh (descTw s), src, k)]"
    by (simp_all add: tick_description_funpow)
qed


subsection \<open>Unfolding the examples\<close>

lemmas example_defs = example_api_def json_ok_def json_error_def stored_def example_files_def
  initial_app_def initial_typewriter_def empty_app_def loaded_app_def


section \<open>Upload pipeline\<close>

text \<open>
  A batch that runs alone, from its start to its return. \<open>processFiles\<close> keeps the files
  whose media type is \<open>application/pdf\<close> or whose lower-cased name ends in \<open>.pdf\<close>. If
  none is left it only sets the error \<open>Please upload PDF files only\<close> and returns.
  Otherwise the progress starts at \<open>{total: N, completed: 0}\<close> with the error cleared;
  after the first \<open>k\<close> files the requests issued are the uploads of these \<open>k\<close> files in
  order, each file having met the backend that the file before it left, \<open>completed\<close> is
  the number of successful ones among them and the error is the message of the last
  failed one. Then one GET refreshes the list: the documents are those of the response
  if it carries \<open>success\<close> and are unchanged otherwise; the progress is \<open>null\<close>.
\<close>

lemma processFiles_alone:
  "(let pdfFiles = filter is_pdf files;
        results = upload_results api pdfFiles (server s);
        s1 = s\<lparr>uploadProgress := Some \<lparr>total_files = length pdfFiles, completed = 0\<rparr>,
               error := None\<rparr>;
        uploaded = (\<lambda>k. s\<lparr>server := server_after_uploads api (take k pdfFiles) (server s),
                           requests := requests s @ map PostUpload (take k pdfFiles),
                           uploadProgress :=
                             Some \<lparr>total_files = length pdfFiles,
                                   completed = length (filter upload_succeeded (take k results))\<rparr>,
                           error := last_failure (take k results)\<rparr>)
    in (pdfFiles = [] \<longrightarrow>
          processFiles_start files s = (s\<lparr>error := Some ''Please upload PDF files only''\<rparr>, None)
          \<and> processFiles api files s = Inr (s\<lparr>error := Some ''Please upload PDF files only''\<rparr>))
     \<and> (pdfFiles \<noteq> [] \<longrightarrow>
          processFiles_start files s = (s1, Some pdfFiles)
          \<and> (\<forall>k \<le> length pdfFiles. upload_loop api (take k pdfFiles) s1 = Inr (uploaded k))
          \<and> map fst results = pdfFiles
          \<and> processFiles api files s
              = Inr ((fetchDocuments api (uploaded (length pdfFiles)))\<lparr>uploadProgress := None\<rparr>)
          \<and> map_sum (\<lambda>e. e) requests (processFiles api files s)
              = Inr (requests s @ map PostUpload pdfFiles @ [GetDocuments])
          \<and> map_sum (\<lambda>e. e) error (processFiles api files s) = Inr (last_failure results)
          \<and> map_sum (\<lambda>e. e) uploadProgress (processFiles api files s) = Inr None
          \<and> map_sum (\<lambda>e. e) documents (processFiles api files s)
              = Inr (case fst (api_documents api (server_after_uploads api pdfFiles (server s))) of
                       Rejected msg \<Rightarrow> documents s
                     | Resolved d \<Rightarrow>
                         if success d
                         then (case data_documents d of None \<Rightarrow> [] | Some ds \<Rightarrow> ds)
                         else documents s)))"
proof -
  let ?pdf = "filter is_pdf files"
  let ?s1 = "s\<lparr>uploadProgress := Some \<lparr>total_files = length ?pdf, completed = 0\<rparr>,
               error := None\<rparr>"
  have p1: "uploadProgress ?s1 = Some \<lparr>total_files = length ?pdf, completed = 0\<rparr>"
    by simp
  have loop: "upload_loop api (take k ?pdf) ?s1 =
      Inr (s\<lparr>server := server_after_uploads api (take k ?pdf) (server s),
             requests := requests s @ map PostUpload (take k ?pdf),
             uploadProgress :=
               Some \<lparr>total_files = length ?pdf,
                     completed = length (filter upload_succeeded
                                   (take k (upload_results api ?pdf (server s))))\<rparr>,
             error := last_failure (take k (upload_results api ?pdf (server s)))\<rparr>)" for k
    using upload_loop_alone[OF p1, of api "take k ?pdf"]
    by (simp add: upload_results_take split: option.splits)
  have whole: "take (length ?pdf) (upload_results api ?pdf (server s))
                 = upload_results api ?pdf (server s)"
    by (simp add: upload_results_length)
  show ?thesis
    by (simp add: Let_def loop whole processFiles_rejected processFiles_accepted
          processFiles_start_def processFiles_finish_def fetchDocuments_frame
          fetchDocuments_documents upload_results_files split: awaited.splits)
qed

text \<open>
  Claim C1 says of every submitted batch that \<open>completed\<close> is incremented once per
  successful upload of that batch and ends equal to their number. \<open>handleDrop\<close> starts
  a batch whatever \<open>uploadProgress\<close> is, while the two upload buttons are disabled
  during a batch. After two drops of one file each, the second before the upload of
  the first has settled: the second drop replaces the progress record by its own; the
  success of the first batch is counted in that record; the first batch then refreshes
  the list and sets the progress to \<open>null\<close>; and the successful upload of the second
  batch runs the updater on \<open>null\<close>, which throws. If the second upload settles before
  the first batch returns, the record of one file shows two completed.
\<close>

theorem overlapping_batches_break_progress:
  "handleDrop [file_a] empty_app
     = (empty_app\<lparr>uploadProgress := Some \<lparr>total_files = 1, completed = 0\<rparr>\<rparr>, Some [file_a])
   \<and> handleDrop [file_b] (fst (handleDrop [file_a] empty_app)) = (two_drops, Some [file_b])
   \<and> uploadProgress two_drops = Some \<lparr>total_files = 1, completed = 0\<rparr>
   \<and> processFiles_resume (example_api True) [file_a] two_drops = Inr (first_settled, Some [])
   \<and> uploadProgress first_settled = Some \<lparr>total_files = 1, completed = 1\<rparr>
   \<and> processFiles_resume (example_api True) [] first_settled = Inr (first_returned, None)
   \<and> uploadProgress first_returned = None
   \<and> processFiles_resume (example_api True) [file_b] first_returned = Inl TypeError
   \<and> map_sum (\<lambda>e. e) (\<lambda>r. uploadProgress (fst r))
        (processFiles_resume (example_api True) [file_b] first_settled)
       = Inr (Some \<lparr>total_files = 1, completed = 2\<rparr>)"
  by (simp add: handleDrop_def processFiles_start_def upload_file_def processFiles_finish_def
        fetchDocuments_def is_pdf_def two_drops_def first_settled_def first_returned_def
        file_a_def file_b_def example_defs Let_def)


section \<open>Chat session\<close>

text \<open>
  Claim C2. When the chat request has failed (the awaited call was rejected, or the
  response does not carry \<open>success\<close>), the rest of \<open>handleSendMessage\<close> appends no
  message, sets the error to the failure reason and sets \<open>isLoading\<close> to false; for a
  whole send that was accepted, the history afterwards is the old history followed by
  the user message alone.
\<close>

theorem failed_send_keeps_user_message:
  "(request_failed r \<longrightarrow>
      messages (handleSendMessage_finish r s) = messages s
      \<and> error (handleSendMessage_finish r s) = Some (failure_reason r)
      \<and> \<not> isLoading (handleSendMessage_finish r s))
   \<and> (trim (inputMessage s0) \<noteq> [] \<and> \<not> isLoading s0
      \<and> request_failed (fst (api_chat api (inputMessage s0) (mode_key (knowledgeMode s0))
                                (server s0))) \<longrightarrow>
        messages (handleSendMessage api now s0)
          = messages s0 @ [\<lparr>role = User, content = inputMessage s0, timestamp = now,
                            metadata = None\<rparr>]
        \<and> error (handleSendMessage api now s0)
            = Some (failure_reason (fst (api_chat api (inputMessage s0)
                                           (mode_key (knowledgeMode s0)) (server s0))))
        \<and> \<not> isLoading (handleSendMessage api now s0))"
  by (auto simp: request_failed_def failure_reason_def handleSendMessage_finish_def
        handleSendMessage_def start_accepted Let_def split: awaited.splits prod.splits)

theorem failed_send_keeps_user_message_witness:
  "request_failed (Resolved (json_error ''No documents''))
   \<and> error (handleSendMessage_finish (Resolved (json_error ''No documents''))
              (empty_app\<lparr>isLoading := True\<rparr>)) = Some ''No documents''
   \<and> trim ''What is in document X?'' \<noteq> []
   \<and> messages (handleSendMessage (example_api True) ''t0''
        (empty_app\<lparr>inputMessage := ''What is in document X?'', knowledgeMode := Strict\<rparr>))
       = [\<lparr>role = User, content = ''What is in document X?'', timestamp = ''t0'',
           metadata = None\<rparr>]
   \<and> error (handleSendMessage (example_api True) ''t0''
        (empty_app\<lparr>inputMessage := ''What is in document X?'', knowledgeMode := Strict\<rparr>))
       = Some ''No documents''"
  using failed_send_keeps_user_message[where r = "Resolved (json_error ''No documents'')"
          and s = "empty_app\<lparr>isLoading := True\<rparr>"
          and ?s0.0 = "empty_app\<lparr>inputMessage := ''What is in document X?'',
                                  knowledgeMode := Strict\<rparr>"
          and api = "example_api True" and now = "''t0''"]
  by (simp add: handleSendMessage_def handleSendMessage_start_def
        handleSendMessage_finish_def request_failed_def failure_reason_def or_else_def trim_def
        is_space_def example_defs)

text \<open>
  Claim C4. A send is a no-op when the input is empty or white space only, or when
  \<open>isLoading\<close> is set: the state, with its request log, is returned as it was and no
  request body is produced. A second send that follows a first one before the first
  has settled is therefore always such a no-op.
\<close>

theorem send_rejected_is_noop:
  "(trim (inputMessage s) = [] \<or> isLoading s \<longrightarrow>
      handleSendMessage_start now s = (s, None) \<and> handleSendMessage api now s = s)
   \<and> (let s1 = fst (handleSendMessage_start now s)
      in handleSendMessage_start now' s1 = (s1, None) \<and> handleSendMessage api now' s1 = s1)"
proof -
  have first: "handleSendMessage_start now s = (s, None) \<and> handleSendMessage api now s = s"
    if "trim (inputMessage s) = [] \<or> isLoading s"
    using that by (simp add: handleSendMessage_def start_rejected)
  have "trim (inputMessage (fst (handleSendMessage_start now s))) = []
        \<or> isLoading (fst (handleSendMessage_start now s))"
    by (cases "trim (inputMessage s) = [] \<or> isLoading s")
       (auto simp: start_rejected start_accepted trim_Nil)
  then have second: "let s1 = fst (handleSendMessage_start now s)
      in handleSendMessage_start now' s1 = (s1, None) \<and> handleSendMessage api now' s1 = s1"
    by (simp add: Let_def handleSendMessage_def start_rejected)
  from first second show ?thesis by blast
qed

theorem send_rejected_is_noop_witness:
  "trim (inputMessage (loaded_app\<lparr>inputMessage := ''  ''\<rparr>)) = []
   \<and> handleSendMessage (example_api True) ''t0'' (loaded_app\<lparr>inputMessage := ''  ''\<rparr>)
       = loaded_app\<lparr>inputMessage := ''  ''\<rparr>
   \<and> snd (handleSendMessage_start ''t0'' (loaded_app\<lparr>inputMessage := ''hi''\<rparr>))
       = Some (''hi'', ''augmented'')
   \<and> snd (handleSendMessage_start ''t1''
            (fst (handleSendMessage_start ''t0'' (loaded_app\<lparr>inputMessage := ''hi''\<rparr>))))
       = None"
  using send_rejected_is_noop[where s = "loaded_app\<lparr>inputMessage := ''  ''\<rparr>"
          and api = "example_api True" and now = "''t0''" and now' = "''t1''"]
        send_rejected_is_noop[where s = "loaded_app\<lparr>inputMessage := ''hi''\<rparr>"
          and api = "example_api True" and now = "''t0''" and now' = "''t1''"]
  by (simp add: handleSendMessage_def handleSendMessage_start_def trim_def
        is_space_def example_defs Let_def)

text \<open>
  Claim C8, as amended: for every send whose input is not empty and not white space
  only, with no send in flight, the user message with the client's time stamp is
  appended at once, the input is cleared, \<open>isLoading\<close> is set, the error is cleared
  and one chat request is issued; on a response that carries \<open>success\<close> exactly one
  assistant message is appended, built from the answer and the metadata of the
  response (its \<open>mode\<close> is the \<open>knowledge_mode\<close> field of the response), and \<open>isLoading\<close>
  becomes false.
\<close>

theorem accepted_send_appends:
  "trim (inputMessage s) \<noteq> [] \<and> \<not> isLoading s \<longrightarrow>
     (let s1 = fst (handleSendMessage_start now s);
          userMessage = \<lparr>role = User, content = inputMessage s, timestamp = now, metadata = None\<rparr>
      in messages s1 = messages s @ [userMessage]
       \<and> inputMessage s1 = [] \<and> isLoading s1 \<and> error s1 = None
       \<and> snd (handleSendMessage_start now s) = Some (inputMessage s, mode_key (knowledgeMode s))
       \<and> requests s1 = requests s @ [PostChat (inputMessage s) (mode_key (knowledgeMode s))]
       \<and> (\<forall>d t. success d \<longrightarrow>
            messages (handleSendMessage_finish (Resolved d) t)
              = messages t @ [\<lparr>role = Assistant, content = answer d, timestamp = data_timestamp d,
                   metadata = Some \<lparr>mode = knowledge_mode d, sources = sources_used d,
                     searchResults = search_results_count d, tokenUsage = token_usage d\<rparr>\<rparr>]
            \<and> \<not> isLoading (handleSendMessage_finish (Resolved d) t)
            \<and> error (handleSendMessage_finish (Resolved d) t) = error t)
       \<and> (\<forall>d sv. api_chat api (inputMessage s) (mode_key (knowledgeMode s)) (server s)
                    = (Resolved d, sv) \<and> success d \<longrightarrow>
            messages (handleSendMessage api now s)
              = messages s @ [userMessage, assistantMessage d]
            \<and> map_option mode (metadata (assistantMessage d)) = Some (knowledge_mode d)
            \<and> \<not> isLoading (handleSendMessage api now s)
            \<and> error (handleSendMessage api now s) = None))"
  by (auto simp: handleSendMessage_finish_def assistantMessage_def
        handleSendMessage_def start_accepted Let_def split: awaited.splits prod.splits)

text \<open>
  The claim C8 as it was stated, for every non-empty question, fails for a question
  that is a single space: it is not empty, no send is in flight, and nothing is appended.
\<close>

theorem accepted_send_counterexample:
  "inputMessage (empty_app\<lparr>inputMessage := '' ''\<rparr>) \<noteq> []
   \<and> \<not> isLoading (empty_app\<lparr>inputMessage := '' ''\<rparr>)
   \<and> handleSendMessage_start ''t0'' (empty_app\<lparr>inputMessage := '' ''\<rparr>)
       = (empty_app\<lparr>inputMessage := '' ''\<rparr>, None)
   \<and> messages (handleSendMessage (example_api True) ''t0'' (empty_app\<lparr>inputMessage := '' ''\<rparr>))
       = []"
  by (simp add: handleSendMessage_def handleSendMessage_start_def empty_app_def initial_app_def
        trim_def is_space_def)

theorem accepted_send_appends_witness:
  "trim (inputMessage (loaded_app\<lparr>inputMessage := ''What is in document X?'',
                                  knowledgeMode := Strict\<rparr>)) \<noteq> []
   \<and> \<not> isLoading (loaded_app\<lparr>inputMessage := ''What is in document X?'',
                               knowledgeMode := Strict\<rparr>)
   \<and> map (\<lambda>m. (role m, map_option mode (metadata m)))
        (messages (handleSendMessage (example_api True) ''t0''
           (loaded_app\<lparr>inputMessage := ''What is in document X?'', knowledgeMode := Strict\<rparr>)))
       = [(User, None), (Assistant, Some ''strict'')]
   \<and> \<not> isLoading (handleSendMessage (example_api True) ''t0''
           (loaded_app\<lparr>inputMessage := ''What is in document X?'', knowledgeMode := Strict\<rparr>))"
  using accepted_send_appends[where s = "loaded_app\<lparr>inputMessage := ''What is in document X?'',
                                                   knowledgeMode := Strict\<rparr>"
          and api = "example_api True" and now = "''t0''"]
  by (simp add: handleSendMessage_def handleSendMessage_start_def
        handleSendMessage_finish_def assistantMessage_def trim_def is_space_def example_defs Let_def)


section \<open>Content renderer\<close>





section \<open>Typewriter\<close>

text \<open>
  Claim C5. Take a hook instance after any history of renders, ticks and unmounts, and a
  render at which \<open>text\<close>, \<open>speed\<close> or \<open>trigger\<close> has changed. The render empties the
  shown text and leaves exactly one live interval, the new one. Its first \<open>length text\<close>
  ticks each extend the shown prefix by one character; the tick after that sets
  \<open>isTyping\<close> to false and clears the interval, with the whole text shown, and nothing
  changes afterwards. A tick of any other interval, in particular of the cycle that was
  superseded, changes nothing at any point of the new cycle.
\<close>

theorem typewriter_reveal:
  "deps (typewriter_run es) \<noteq> Some (src, speed, trigger) \<longrightarrow>
     (let w0 = useTypewriter src speed trigger (typewriter_run es);
          h = fresh (typewriter_run es)
      in displayedText w0 = [] \<and> isTyping w0 \<and> timers w0 = [(h, src, 0)]
       \<and> (\<forall>k \<le> length src.
            displayedText ((tick h ^^ k) w0) = take k src
            \<and> isTyping ((tick h ^^ k) w0)
            \<and> timers ((tick h ^^ k) w0) = [(h, src, k)])
       \<and> (\<forall>k > length src.
            displayedText ((tick h ^^ k) w0) = src
            \<and> \<not> isTyping ((tick h ^^ k) w0)
            \<and> timers ((tick h ^^ k) w0) = [])
       \<and> (\<forall>h' k. h' \<noteq> h \<longrightarrow> tick h' ((tick h ^^ k) w0) = (tick h ^^ k) w0))"
proof (intro impI)
  let ?state = "typewriter_run es"
  let ?start = "useTypewriter src speed trigger ?state"
  let ?new = "fresh ?state"
  assume changed: "deps ?state \<noteq> Some (src, speed, trigger)"
  then have w0: "?start = run_effect src speed trigger ?state"
    by (simp add: useTypewriter_def)
  have t0: "timers ?start = [(?new, src, 0)]"
    by (simp add: w0 run_effect_timers single_cycle_run)
  have d0: "displayedText ?start = []" and i0: "isTyping ?start"
    by (simp_all add: w0 run_effect_fields)
  have reveal: "displayedText ((tick ?new ^^ k) ?start) = take k src
            \<and> isTyping ((tick ?new ^^ k) ?start)
            \<and> timers ((tick ?new ^^ k) ?start) = [(?new, src, k)]" if "k \<le> length src" for k
    using that i0 by (simp add: ticks_reveal[OF t0 d0])
  have finish: "displayedText ((tick ?new ^^ k) ?start) = src
            \<and> \<not> isTyping ((tick ?new ^^ k) ?start)
            \<and> timers ((tick ?new ^^ k) ?start) = []" if "k > length src" for k
  proof -
    from that obtain n where "k = Suc (length src + n)"
      by (metis Suc_leI add_Suc le_Suc_ex)
    then show ?thesis by (simp add: ticks_finish[OF t0 d0] del: funpow.simps)
  qed
  have stale: "tick h' ((tick ?new ^^ k) ?start) = (tick ?new ^^ k) ?start" if "h' \<noteq> ?new" for h' k
    using that by (rule ticks_stale[OF t0 d0])
  show "let w0 = ?start; h = ?new
      in displayedText w0 = [] \<and> isTyping w0 \<and> timers w0 = [(h, src, 0)]
       \<and> (\<forall>k \<le> length src.
            displayedText ((tick h ^^ k) w0) = take k src
            \<and> isTyping ((tick h ^^ k) w0)
            \<and> timers ((tick h ^^ k) w0) = [(h, src, k)])
       \<and> (\<forall>k > length src.
            displayedText ((tick h ^^ k) w0) = src
            \<and> \<not> isTyping ((tick h ^^ k) w0)
            \<and> timers ((tick h ^^ k) w0) = [])
       \<and> (\<forall>h' k. h' \<noteq> h \<longrightarrow> tick h' ((tick h ^^ k) w0) = (tick h ^^ k) w0)"
    unfolding Let_def using t0 d0 i0 reveal finish stale by blast
qed

theorem typewriter_reveal_witness:
  "deps (typewriter_run [Render ''Hello'' 30 0, Tick 0, Tick 0]) \<noteq> Some (''Hi'', 30, 1)
   \<and> displayedText (typewriter_run [Render ''Hello'' 30 0, Tick 0, Tick 0]) = ''He''
   \<and> fresh (typewriter_run [Render ''Hello'' 30 0, Tick 0, Tick 0]) = 1
   \<and> displayedText (useTypewriter ''Hi'' 30 1
        (typewriter_run [Render ''Hello'' 30 0, Tick 0, Tick 0])) = []
   \<and> displayedText ((tick 1 ^^ 1) (useTypewriter ''Hi'' 30 1
        (typewriter_run [Render ''Hello'' 30 0, Tick 0, Tick 0]))) = ''H''
   \<and> displayedText ((tick 1 ^^ 3) (useTypewriter ''Hi'' 30 1
        (typewriter_run [Render ''Hello'' 30 0, Tick 0, Tick 0]))) = ''Hi''
   \<and> \<not> isTyping ((tick 1 ^^ 3) (useTypewriter ''Hi'' 30 1
        (typewriter_run [Render ''Hello'' 30 0, Tick 0, Tick 0])))
   \<and> tick 0 ((tick 1 ^^ 1) (useTypewriter ''Hi'' 30 1
        (typewriter_run [Render ''Hello'' 30 0, Tick 0, Tick 0])))
       = (tick 1 ^^ 1) (useTypewriter ''Hi'' 30 1
        (typewriter_run [Render ''Hello'' 30 0, Tick 0, Tick 0]))"
  using typewriter_reveal[where es = "[Render ''Hello'' 30 0, Tick 0, Tick 0]"
          and src = "''Hi''" and speed = 30 and trigger = 1]
  by (simp add: typewriter_run_def useTypewriter_def run_effect_def run_cleanup_def
        clearInterval_def tick_def initial_typewriter_def Let_def eval_nat_numeral)

text \<open>
  Claim C6, as amended. In every state the banner reaches: while the title's \<open>isTyping\<close>
  is true the banner shows no character of the description, and a render passes \<open>-1\<close> to
  the description hook as its trigger; the hook has no suspended state and treats \<open>-1\<close>
  as any other trigger: a render that changes its dependencies to the \<open>-1\<close> trigger
  starts an interval of the description, and each tick of that interval extends the
  text of the hook by one character. On a render with the title's \<open>isTyping\<close> false and
  the description hook still on \<open>-1\<close>, the trigger becomes \<open>typingTrigger\<close>: the
  description restarts from the empty text on a new interval, and, the dependencies of
  the title being unchanged, the banner then shows one more character of the
  description with each tick of that interval.
\<close>

theorem description_chaining:
  "(let s = banner_run es sv; src = descriptionText (knowledgeMode s); h = fresh (descTw s)
    in (isTyping (titleTw s) \<longrightarrow>
          shown_description s = []
          \<and> deps (descTw (render s)) = Some (src, 20, - 1)
          \<and> (deps (descTw s) \<noteq> Some (src, 20, - 1) \<longrightarrow>
               (\<forall>k \<le> length src.
                  displayedText (descTw ((tick_description h ^^ k) (render s))) = take k src
                  \<and> timers (descTw ((tick_description h ^^ k) (render s))) = [(h, src, k)])))
     \<and> (\<not> isTyping (titleTw s) \<and> map_option (snd \<circ> snd) (deps (descTw s)) = Some (- 1) \<longrightarrow>
          deps (descTw (render s)) = Some (src, 20, typingTrigger s)
          \<and> displayedText (descTw (render s)) = []
          \<and> isTyping (descTw (render s))
          \<and> timers (descTw (render s)) = [(h, src, 0)]
          \<and> (deps (titleTw s) = Some (titleText, 40, typingTrigger s) \<longrightarrow>
               (\<forall>k \<le> length src.
                  shown_description ((tick_description h ^^ k) (render s)) = take k src))))"
proof -
  let ?s = "banner_run es sv"
  let ?src = "descriptionText (knowledgeMode ?s)"
  let ?h = "fresh (descTw ?s)"
  have ok: "single_cycle (descTw ?s)" and trig: "0 \<le> typingTrigger ?s"
    using banner_ok_run[of es sv] by (simp_all add: banner_ok_def)
  have hidden: "shown_description ?s = []" if "isTyping (titleTw ?s)"
    using that by (simp add: shown_description_def)
  have sentinel: "deps (descTw (render ?s)) = Some (?src, 20, - 1)" if "isTyping (titleTw ?s)"
    using that by (simp add: render_descTw useTypewriter_deps)
  have clock: "displayedText (descTw ((tick_description ?h ^^ k) (render ?s))) = take k ?src
               \<and> timers (descTw ((tick_description ?h ^^ k) (render ?s))) = [(?h, ?src, k)]"
    if "isTyping (titleTw ?s)" "deps (descTw ?s) \<noteq> Some (?src, 20, - 1)" "k \<le> length ?src"
    for k
  proof -
    from that(1) have "descTw (render ?s) = useTypewriter ?src 20 (- 1) (descTw ?s)"
      by (simp add: render_descTw)
    from description_reveal[OF ok that(2) this that(3)] show ?thesis by simp
  qed
  have changed: "deps (descTw ?s) \<noteq> Some (?src, 20, typingTrigger ?s)"
    if "map_option (snd \<circ> snd) (deps (descTw ?s)) = Some (- 1)"
    using that trig by auto
  have activate: "deps (descTw (render ?s)) = Some (?src, 20, typingTrigger ?s)
          \<and> displayedText (descTw (render ?s)) = []
          \<and> isTyping (descTw (render ?s))
          \<and> timers (descTw (render ?s)) = [(?h, ?src, 0)]"
    if "\<not> isTyping (titleTw ?s)" "map_option (snd \<circ> snd) (deps (descTw ?s)) = Some (- 1)"
    using that(1) changed[OF that(2)] ok
    by (simp add: render_descTw useTypewriter_deps useTypewriter_restart)
  have typing: "shown_description ((tick_description ?h ^^ k) (render ?s)) = take k ?src"
    if "\<not> isTyping (titleTw ?s)" "map_option (snd \<circ> snd) (deps (descTw ?s)) = Some (- 1)"
       "deps (titleTw ?s) = Some (titleText, 40, typingTrigger ?s)" "k \<le> length ?src"
    for k
  proof -
    from that(1) have "descTw (render ?s) = useTypewriter ?src 20 (typingTrigger ?s) (descTw ?s)"
      by (simp add: render_descTw)
    from description_reveal(1)[OF ok changed[OF that(2)] this that(4)]
    have "displayedText (descTw ((tick_description ?h ^^ k) (render ?s))) = take k ?src" .
    moreover from that(1,3) have "\<not> isTyping (titleTw ((tick_description ?h ^^ k) (render ?s)))"
      by (simp add: tick_description_funpow render_titleTw useTypewriter_def)
    ultimately show ?thesis by (simp add: shown_description_def)
  qed
  show ?thesis
    unfolding Let_def using hidden sentinel clock activate typing by blast
qed

text \<open>
  The claim C6 as it was stated fails right after mounting: one tick of the description's
  interval later the title is still typing, the description hook runs on \<open>-1\<close>, is typing
  too, holds one character and has a live interval.
\<close>

theorem description_chaining_counterexample:
  "isTyping (titleTw (tick_description 0 (render empty_app)))
   \<and> isTyping (descTw (tick_description 0 (render empty_app)))
   \<and> deps (descTw (tick_description 0 (render empty_app)))
       = Some (descriptionText Augmented, 20, - 1)
   \<and> displayedText (descTw (tick_description 0 (render empty_app))) = ''U''
   \<and> timers (descTw (tick_description 0 (render empty_app)))
       = [(0, descriptionText Augmented, 1)]"
  by (simp add: tick_description_def render_def empty_app_def initial_app_def
        initial_typewriter_def useTypewriter_def run_effect_def run_cleanup_def tick_def Let_def
        descriptionText_def)

theorem description_chaining_witness:
  "isTyping (titleTw (banner_run [] ([] :: document list)))
   \<and> shown_description (banner_run [] ([] :: document list)) = []
   \<and> deps (descTw (banner_run [] ([] :: document list)))
       \<noteq> Some (descriptionText Augmented, 20, - 1)
   \<and> displayedText (descTw ((tick_description 0 ^^ 2) (render (banner_run [] ([] :: document list)))))
       = ''Up''
   \<and> \<not> isTyping (titleTw (banner_run (Rerender # replicate 29 (TitleTick 0))
                               ([] :: document list)))
   \<and> map_option (snd \<circ> snd)
        (deps (descTw (banner_run (Rerender # replicate 29 (TitleTick 0)) ([] :: document list))))
       = Some (- 1)
   \<and> deps (titleTw (banner_run (Rerender # replicate 29 (TitleTick 0)) ([] :: document list)))
       = Some (titleText, 40, 0)
   \<and> deps (descTw (render (banner_run (Rerender # replicate 29 (TitleTick 0))
                             ([] :: document list))))
       = Some (descriptionText Augmented, 20, 0)
   \<and> displayedText (descTw (render (banner_run (Rerender # replicate 29 (TitleTick 0))
                                      ([] :: document list)))) = []
   \<and> shown_description ((tick_description 1 ^^ 2)
        (render (banner_run (Rerender # replicate 29 (TitleTick 0)) ([] :: document list))))
       = ''Up''"
proof -
  let ?early = "banner_run [] ([] :: document list)"
  let ?late = "banner_run (Rerender # replicate 29 (TitleTick 0)) ([] :: document list)"
  have early: "isTyping (titleTw ?early)"
    "deps (descTw ?early) \<noteq> Some (descriptionText Augmented, 20, - 1)"
    "knowledgeMode ?early = Augmented" "fresh (descTw ?early) = 0"
    by (simp_all add: banner_run_def initial_app_def initial_typewriter_def)
  have late: "\<not> isTyping (titleTw ?late)"
    "map_option (snd \<circ> snd) (deps (descTw ?late)) = Some (- 1)"
    "deps (titleTw ?late) = Some (titleText, 40, 0)"
    "knowledgeMode ?late = Augmented" "typingTrigger ?late = 0" "fresh (descTw ?late) = 1"
    by code_simp+
  have len: "(2::nat) \<le> length (descriptionText Augmented)"
    "take 2 (descriptionText Augmented) = ''Up''"
    by (simp_all add: descriptionText_def)
  from early len description_chaining[where es = "[]" and sv = "[] :: document list"]
  have "shown_description ?early = []
        \<and> displayedText (descTw ((tick_description 0 ^^ 2) (render ?early))) = ''Up''"
    by (simp add: Let_def)
  moreover from late len
    description_chaining[where es = "Rerender # replicate 29 (TitleTick 0)"
          and sv = "[] :: document list"]
  have "deps (descTw (render ?late)) = Some (descriptionText Augmented, 20, 0)
        \<and> displayedText (descTw (render ?late)) = []
        \<and> shown_description ((tick_description 1 ^^ 2) (render ?late)) = ''Up''"
    by (simp add: Let_def)
  ultimately show ?thesis using early late by simp
qed


text \<open>
  The amended claim C6 does not say what the banner shows between the last tick of the
  title and the render that follows it. There the view already reads the text of the
  description hook, which is still the text typed on \<open>-1\<close>: after 58 ticks of the
  description's interval and the 29 ticks that end the title, 58 characters are shown,
  and the render that follows empties them.
\<close>

lemma sentinel_text_before_restart:
  "\<not> isTyping (titleTw (banner_run
         (Rerender # replicate 58 (DescriptionTick 0) @ replicate 29 (TitleTick 0))
         ([] :: document list)))
   \<and> map_option (snd \<circ> snd) (deps (descTw (banner_run
         (Rerender # replicate 58 (DescriptionTick 0) @ replicate 29 (TitleTick 0))
         ([] :: document list)))) = Some (- 1)
   \<and> length (shown_description (banner_run
         (Rerender # replicate 58 (DescriptionTick 0) @ replicate 29 (TitleTick 0))
         ([] :: document list))) = 58
   \<and> shown_description (render (banner_run
         (Rerender # replicate 58 (DescriptionTick 0) @ replicate 29 (TitleTick 0))
         ([] :: document list))) = []"
  by code_simp


section \<open>Drag zone\<close>

text \<open>
  Claim C7, as amended. From a counter that is not negative, along every sequence of
  drag events in which each leave arrives while the counter is positive, the counter
  is at least 0 after every event; and right after a drop the counter is 0 and
  \<open>isDragOver\<close> is false, whatever came before. (The steps of a batch in flight leave
  both as they are: \<open>processFiles_resume_frame\<close>.)
\<close>

theorem drag_depth_invariant:
  "(0 \<le> dragCounter s \<and> leaves_matched es s \<longrightarrow>
      (\<forall>n \<le> length es. 0 \<le> dragCounter (drag_run (take n es) s)))
   \<and> dragCounter (drag_run (es @ [Drop files]) s) = 0
   \<and> \<not> isDragOver (drag_run (es @ [Drop files]) s)"
  by (simp add: drag_run_snoc handleDrop_resets drag_run_nonneg leaves_matched_take)

text \<open>
  The claim C7 as it was stated, for every sequence of events, fails for a leave that
  no enter precedes: the counter becomes \<open>-1\<close>.
\<close>

theorem drag_depth_counterexample:
  "dragCounter (drag_run [DragLeave] empty_app) = - 1"
  by (simp add: drag_run_def handleDragLeave_def empty_app_def initial_app_def Let_def)

theorem drag_depth_invariant_witness:
  "0 \<le> dragCounter empty_app
   \<and> leaves_matched [DragEnter True, DragEnter False, DragLeave, DragLeave] empty_app
   \<and> 0 \<le> dragCounter (drag_run
            (take 4 [DragEnter True, DragEnter False, DragLeave, DragLeave]) empty_app)
   \<and> dragCounter (drag_run
        ([DragEnter True, DragEnter False, DragLeave, DragLeave] @ [Drop [file_a]]) empty_app) = 0"
  using drag_depth_invariant[where es = "[DragEnter True, DragEnter False, DragLeave, DragLeave]"
          and s = empty_app and files = "[file_a]"]
  by (simp add: drag_run_def handleDragEnter_def handleDragLeave_def handleDragOver_def
        handleDrop_def processFiles_start_def example_defs Let_def)


section \<open>Deleting a document and refreshing the list\<close>



text \<open>
  Claim C10. A refresh that fails leaves the document list as it was, and a response that
  carries \<open>success\<close> replaces it by the list of the response; so the list is as before
  after an upload batch whose final refresh fails (for the batch run as a whole, and for
  its last step in whatever state the component is by then), and after a delete that is
  followed by a failing refresh.
\<close>

theorem refresh_failure_keeps_documents:
  "(refresh_fails api (server s) \<longrightarrow> documents (fetchDocuments api s) = documents s)
   \<and> (\<forall>d sv. api_documents api (server s) = (Resolved d, sv) \<and> success d \<longrightarrow>
         documents (fetchDocuments api s)
           = (case data_documents d of None \<Rightarrow> [] | Some ds \<Rightarrow> ds))
   \<and> (refresh_fails api (server_after_uploads api (filter is_pdf files) (server s)) \<longrightarrow>
         map_sum (\<lambda>e. e) documents (processFiles api files s) = Inr (documents s))
   \<and> (refresh_fails api (server s) \<longrightarrow>
         documents (processFiles_finish api s) = documents s)
   \<and> (refresh_fails api (snd (api_delete api pdfId (server s))) \<longrightarrow>
         documents (handleDeleteDocument api confirm pdfId pdfName s) = documents s)"
proof (intro conjI impI allI)
  assume "refresh_fails api (server s)"
  then show "documents (fetchDocuments api s) = documents s"
    by (simp add: refresh_fails_def fetchDocuments_documents split: awaited.splits)
next
  fix d sv
  assume "api_documents api (server s) = (Resolved d, sv) \<and> success d"
  then show "documents (fetchDocuments api s)
               = (case data_documents d of None \<Rightarrow> [] | Some ds \<Rightarrow> ds)"
    by (simp add: fetchDocuments_documents)
next
  assume "refresh_fails api (server_after_uploads api (filter is_pdf files) (server s))"
  then show "map_sum (\<lambda>e. e) documents (processFiles api files s) = Inr (documents s)"
    by (simp add: refresh_fails_def processFiles_documents fetchDocuments_documents
          split: awaited.splits)
next
  assume "refresh_fails api (server s)"
  then show "documents (processFiles_finish api s) = documents s"
    by (simp add: refresh_fails_def processFiles_finish_frame fetchDocuments_documents
          split: awaited.splits)
next
  assume "refresh_fails api (snd (api_delete api pdfId (server s)))"
  then show "documents (handleDeleteDocument api confirm pdfId pdfName s) = documents s"
    by (auto simp: refresh_fails_def handleDeleteDocument_def Let_def fetchDocuments_documents
          split: prod.splits awaited.splits)
qed

theorem refresh_failure_keeps_documents_witness:
  "refresh_fails (example_api False) (server (loaded_app\<lparr>documents := [stored ''old.pdf'']\<rparr>))
   \<and> documents (fetchDocuments (example_api False) (loaded_app\<lparr>documents := [stored ''old.pdf'']\<rparr>))
       = [stored ''old.pdf'']
   \<and> documents (fetchDocuments (example_api True) (loaded_app\<lparr>documents := [stored ''old.pdf'']\<rparr>))
       = [stored ''x.pdf'']
   \<and> map_sum (\<lambda>e. e) documents (processFiles (example_api False) example_files
        (loaded_app\<lparr>documents := [stored ''old.pdf'']\<rparr>)) = Inr [stored ''old.pdf'']
   \<and> documents (processFiles_finish (example_api False)
        (loaded_app\<lparr>documents := [stored ''old.pdf'']\<rparr>)) = [stored ''old.pdf'']
   \<and> documents (handleDeleteDocument (example_api False) (\<lambda>q. True) ''x.pdf'' ''x.pdf''
        (loaded_app\<lparr>documents := [stored ''old.pdf'']\<rparr>)) = [stored ''old.pdf'']"
  using refresh_failure_keeps_documents[where api = "example_api False"
          and s = "loaded_app\<lparr>documents := [stored ''old.pdf'']\<rparr>" and files = example_files
          and pdfId = "''x.pdf''" and pdfName = "''x.pdf''" and confirm = "\<lambda>q. True"]
        refresh_failure_keeps_documents[where api = "example_api True"
          and s = "loaded_app\<lparr>documents := [stored ''old.pdf'']\<rparr>" and files = example_files
          and pdfId = "''x.pdf''" and pdfName = "''x.pdf''" and confirm = "\<lambda>q. True"]
  by (simp add: handleDeleteDocument_def fetchDocuments_def
        has_json_content_type_def or_else_def refresh_fails_def example_defs Let_def)

end
